theory Spec2Isabelle
  imports Main "HOL-Library.Sublist"
begin

section \<open>The start-document builder (indexBuilder.ts)\<close>

subsection \<open>JavaScript string replacement\<close>

text \<open>
  \<open>buildIndexFile\<close> calls \<open>String.prototype.replace\<close> twice: once with a string
  pattern, which replaces the first occurrence only, and once with the regular expression
  \<^verbatim>\<open>/\{\{BASE_URL\}\}/g\<close>, which matches one literal text and, having the global flag,
  replaces every match from left to right, resuming the search behind each match.

  Texts are lists of characters; the two calls look at no character other than those of
  the tokens and of the dollar patterns below, which are ASCII.

  In both calls the replacement is a string, so the language expands it with its
  GetSubstitution operation before inserting it: \<^verbatim>\<open>$$\<close> stands for a dollar sign,
  \<^verbatim>\<open>$&\<close> for the matched text, \<^verbatim>\<open>$`\<close> for the text before the match and
  \<^verbatim>\<open>$'\<close> for the text behind it. Neither pattern has a capture group, so a dollar
  sign followed by a digit or by \<^verbatim>\<open><\<close> is copied as it is, like every other character.
\<close>

fun getSubstitution :: "string \<Rightarrow> string \<Rightarrow> string \<Rightarrow> string \<Rightarrow> string" where
  "getSubstitution matched leftText rightText [] = []"
| "getSubstitution matched leftText rightText [c] = [c]"
| "getSubstitution matched leftText rightText (c # d # r) =
     (if c = CHR ''$'' then
        if d = CHR ''$'' then CHR ''$'' # getSubstitution matched leftText rightText r
        else if d = CHR ''&'' then matched @ getSubstitution matched leftText rightText r
        else if d = CHR 0x60 then leftText @ getSubstitution matched leftText rightText r
        else if d = CHR 0x27 then rightText @ getSubstitution matched leftText rightText r
        else c # getSubstitution matched leftText rightText (d # r)
      else c # getSubstitution matched leftText rightText (d # r))"

text \<open>\<open>str.indexOf(pat)\<close>: the position of the first occurrence, \<open>None\<close> for -1.\<close>

fun indexOf :: "'a list \<Rightarrow> 'a list \<Rightarrow> nat option" where
  "indexOf pat [] = (if pat = [] then Some 0 else None)"
| "indexOf pat (c # cs) =
     (if prefix pat (c # cs) then Some 0 else map_option Suc (indexOf pat cs))"

text \<open>\<open>str.replace(searchString, replaceValue)\<close> with a string pattern.\<close>

definition replaceString :: "string \<Rightarrow> string \<Rightarrow> string \<Rightarrow> string" where
  "replaceString searchString replaceValue str =
     (case indexOf searchString str of
        None \<Rightarrow> str
      | Some pos \<Rightarrow>
          (let preceding = take pos str;
               following = drop (pos + length searchString) str
           in preceding
                @ getSubstitution searchString preceding following replaceValue
                @ following))"

text \<open>
  \<open>str.replace(/pat/g, replaceValue)\<close> for a regular expression that matches exactly
  the non-empty literal text \<open>pat\<close>. \<open>seen\<close> is the part of the subject already
  scanned, which \<^verbatim>\<open>$`\<close> refers to; \<open>drop (length pat - 1) cs\<close> is the subject behind a
  match that starts at \<open>c\<close>.
\<close>

fun replaceFrom :: "string \<Rightarrow> string \<Rightarrow> string \<Rightarrow> string \<Rightarrow> string" where
  "replaceFrom pat replaceValue seen [] = []"
| "replaceFrom pat replaceValue seen (c # cs) =
     (if prefix pat (c # cs)
      then getSubstitution pat seen (drop (length pat - 1) cs) replaceValue
             @ replaceFrom pat replaceValue (seen @ pat) (drop (length pat - 1) cs)
      else c # replaceFrom pat replaceValue (seen @ [c]) cs)"

definition replaceGlobal :: "string \<Rightarrow> string \<Rightarrow> string \<Rightarrow> string" where
  "replaceGlobal pat replaceValue str = replaceFrom pat replaceValue [] str"

subsection \<open>buildIndexFile\<close>

definition HOST_TOKEN :: string where
  "HOST_TOKEN = ''{{EXT_SERVER_HOST_NAME}}''"

definition BASE_TOKEN :: string where
  "BASE_TOKEN = ''{{BASE_URL}}''"

text \<open>
  The template \<open>index\<close> is the imported text of index.html, which is not part of the
  sources at hand; it is an argument here.
\<close>

definition buildIndexFile :: "string \<Rightarrow> string \<Rightarrow> string \<Rightarrow> string" where
  "buildIndexFile index hostName baseUrl =
     replaceGlobal BASE_TOKEN baseUrl (replaceString HOST_TOKEN hostName index)"

subsection \<open>Vocabulary for stating what a substitution does\<close>

text \<open>
  \<open>joinWith sep segs\<close> is the text made of the segments with \<open>sep\<close> between each two
  of them (JavaScript's \<open>segs.join(sep)\<close>). A text in which a token occurs is
  \<open>joinWith token segs\<close> for segments free of the token, and replacing every
  occurrence by \<open>r\<close>, everything else unchanged, gives \<open>joinWith r segs\<close>.
\<close>

fun joinWith :: "'a list \<Rightarrow> 'a list list \<Rightarrow> 'a list" where
  "joinWith sep [] = []"
| "joinWith sep [x] = x"
| "joinWith sep (x # y # ys) = x @ sep @ joinWith sep (y # ys)"

text \<open>A replacement text that contains one of the four special dollar patterns.\<close>

fun hasDollarPattern :: "string \<Rightarrow> bool" where
  "hasDollarPattern (c # d # r) =
     ((c = CHR ''$'' \<and> (d = CHR ''$'' \<or> d = CHR ''&'' \<or> d = CHR 0x60 \<or> d = CHR 0x27))
      \<or> hasDollarPattern (d # r))"
| "hasDollarPattern [c] = False"
| "hasDollarPattern [] = False"

text \<open>
  A text is borderless when none of its proper non-empty prefixes is also a suffix of it:
  two occurrences of such a text never overlap.
\<close>

definition borderless :: "'a list \<Rightarrow> bool" where
  "borderless p = (\<forall>k \<in> set [1..<length p]. take k p \<noteq> drop (length p - k) p)"

section \<open>The application lifecycle (application.ts)\<close>

subsection \<open>The world outside the coordinator\<close>

text \<open>
  What the coordinator reads from its surroundings, each field named after the
  expression that reads it. \<open>isMac\<close>, \<open>isWindows\<close>, \<open>isLinux\<close> and \<open>isDev\<close> are the
  results of the functions of these names, whose modules are not among the sources at
  hand; \<open>pathJoin\<close> is Node's \<open>path.join\<close>, \<open>index\<close> the text of index.html,
  \<open>settings\<close> what the settings store holds and \<open>disk\<close> the files found at process
  start.
\<close>

datatype store_key = UseSystemMenuBar | OtherKey string

record environment =
  lockGranted :: bool
  processEnv :: "string \<rightharpoonup> string"
  dirname :: string
  userData :: string
  appLocale :: string
  isMac :: bool
  isWindows :: bool
  isLinux :: bool
  isDev :: bool
  shouldMinimizeToTray :: bool
  index :: string
  pathJoin :: "string list \<Rightarrow> string"
  settings :: "store_key \<rightharpoonup> bool"
  disk :: "string \<rightharpoonup> string"

text \<open>
  Node's \<open>path.join\<close> in its POSIX variant, for evaluating the model on concrete
  inputs: the non-empty arguments are joined by a slash and the result is normalised
  (empty and \<open>.\<close> segments dropped, \<open>..\<close> resolved against the segment before it, a
  leading and a trailing slash kept).
\<close>

fun splitOn :: "'a \<Rightarrow> 'a list \<Rightarrow> 'a list list" where
  "splitOn sep [] = [] # []"
| "splitOn sep (c # cs) =
     (if c = sep then [] # splitOn sep cs
      else (case splitOn sep cs of [] \<Rightarrow> [c] # [] | x # xs \<Rightarrow> (c # x) # xs))"

fun normalizeSegments :: "bool \<Rightarrow> string list \<Rightarrow> string list \<Rightarrow> string list" where
  "normalizeSegments allowAboveRoot res [] = res"
| "normalizeSegments allowAboveRoot res (seg # segs) =
     (if seg = [] \<or> seg = ''.'' then normalizeSegments allowAboveRoot res segs
      else if seg = ''..'' then
        (if res \<noteq> [] \<and> last res \<noteq> ''..''
         then normalizeSegments allowAboveRoot (butlast res) segs
         else if allowAboveRoot then normalizeSegments allowAboveRoot (res @ [seg]) segs
         else normalizeSegments allowAboveRoot res segs)
      else normalizeSegments allowAboveRoot (res @ [seg]) segs)"

definition posixNormalize :: "string \<Rightarrow> string" where
  "posixNormalize path =
     (if path = [] then ''.''
      else
        (let isAbsolute = (hd path = CHR ''/'');
             trailingSeparator = (last path = CHR ''/'');
             p = joinWith ''/'' (normalizeSegments (\<not> isAbsolute) [] (splitOn CHR ''/'' path))
         in if p = [] then (if isAbsolute then ''/'' else if trailingSeparator then ''./'' else ''.'')
            else (if isAbsolute then ''/'' else []) @ p
                   @ (if trailingSeparator then ''/'' else [])))"

definition posixJoin :: "string list \<Rightarrow> string" where
  "posixJoin args =
     (let parts = filter (\<lambda>arg. arg \<noteq> []) args
      in if parts = [] then ''.'' else posixNormalize (joinWith ''/'' parts))"

subsection \<open>State\<close>

datatype 'a promise = Pending | Fulfilled 'a | Rejected string

text \<open>
  What the coordinator does, and the two points at which \<open>initializeExtensionsServer\<close>
  resumes from an \<open>await\<close>, in the order in which they happen.
\<close>

datatype action =
    RequestSingleInstanceLock
  | NewStore string
  | CreateExtensionsServer
  | HostNameResolved string
  | WriteFile string string
  | WriteCompleted
  | ShowMessageBoxSync string
  | AppQuit
  | ConsoleWarn string
  | ConsoleLog
  | ExposeAppState
  | InitializeStrings string
  | CreateWindowState
  | RegisterIpcEventListeners
  | CreateTrayIcon
  | LoadURL string
  | WindowShow
  | WindowRestore
  | WindowFocus
  | CheckForUpdate
  | PopupMenu
  | BeginBackups
  | PerformBackup

datatype window_state = WindowState

text \<open>The call of \<open>fs.promises.writeFile\<close>: not made yet, under way, or settled.\<close>

datatype write_stage = NotIssued | Writing string string | Written | WriteError string

text \<open>
  The first seven fields are the interface \<open>AppState\<close> (\<open>store\<close> is the directory the
  store was made for). Then: the promise of \<open>createExtensionsServer()\<close> that
  \<open>initializeExtensionsServer\<close> awaits, the write it issues next, whether
  \<open>finishApplicationInitialization\<close> is suspended at its \<open>await\<close>, whether Electron
  has emitted \<open>ready\<close>, whether the IPC handlers are registered, the files on disk, and
  the actions so far.
\<close>

record app_state =
  store :: string
  startUrl :: string
  webRoot :: string
  extensionsServerAddress :: "string promise"
  isPrimaryInstance :: bool
  willQuitApp :: bool
  windowState :: "window_state option"
  hostNamePromise :: "string promise"
  startDocumentWrite :: write_stage
  awaitingAddress :: bool
  readyEmitted :: bool
  ipcRegistered :: bool
  files :: "string \<rightharpoonup> string"
  trace :: "action list"

definition act :: "action \<Rightarrow> app_state \<Rightarrow> app_state" where
  "act a s = s\<lparr>trace := trace s @ [a]\<rparr>"

subsection \<open>initializeApplication and initializeExtensionsServer\<close>

text \<open>
  \<open>initializeApplication\<close> runs to its end without suspending. The call of
  \<open>initializeExtensionsServer\<close> inside the state literal runs that function up to its
  first \<open>await\<close>, that is, it calls \<open>createExtensionsServer()\<close>, whatever
  \<open>requestSingleInstanceLock\<close> has answered. The two assignments to properties of
  \<open>app\<close> at its beginning and the registration of the handlers at its end leave no
  action in the trace: the handlers are what \<open>step\<close> below calls.
\<close>

definition initializeApplication :: "environment \<Rightarrow> app_state" where
  "initializeApplication env =
     \<lparr> store = userData env,
       startUrl = pathJoin env [userData env, ''index.html''],
       webRoot = (case processEnv env ''APP_RELATIVE_PATH'' of
                    Some rel \<Rightarrow> pathJoin env [dirname env, rel]
                  | None \<Rightarrow> dirname env),
       extensionsServerAddress = Pending,
       isPrimaryInstance = lockGranted env,
       willQuitApp = False,
       windowState = None,
       hostNamePromise = Pending,
       startDocumentWrite = NotIssued,
       awaitingAddress = False,
       readyEmitted = False,
       ipcRegistered = False,
       files = disk env,
       trace = [RequestSingleInstanceLock, NewStore (userData env), CreateExtensionsServer]
                 @ (if isDev env then [ExposeAppState] else []) \<rparr>"

text \<open>
  The promise \<open>state.extensionsServerAddress\<close> settles. Its reactions run in the order
  of their registration: the \<open>catch\<close> handler of \<open>initializeApplication\<close> first, then
  the rest of \<open>finishApplicationInitialization\<close> if that function is waiting. On
  rejection the \<open>await\<close> of the latter throws, so it ends without loading anything.
\<close>

definition addressFulfilled :: "string \<Rightarrow> app_state \<Rightarrow> app_state" where
  "addressFulfilled hostName s =
     (let s1 = s\<lparr>extensionsServerAddress := Fulfilled hostName\<rparr>
      in if awaitingAddress s1
         then act (LoadURL (startUrl s1)) (s1\<lparr>awaitingAddress := False\<rparr>)
         else s1)"

definition addressRejected :: "string \<Rightarrow> app_state \<Rightarrow> app_state" where
  "addressRejected error s =
     act AppQuit
       (act (ShowMessageBoxSync error)
          (s\<lparr>extensionsServerAddress := Rejected error, awaitingAddress := False\<rparr>))"

text \<open>
  \<open>initializeExtensionsServer\<close> resumes with the host name and issues the write; then
  it resumes from the write and returns the host name.
\<close>

definition initializeExtensionsServer_afterHostName ::
  "environment \<Rightarrow> string \<Rightarrow> app_state \<Rightarrow> app_state" where
  "initializeExtensionsServer_afterHostName env hostName s =
     (let content = buildIndexFile (index env) hostName (webRoot s)
      in act (WriteFile (startUrl s) content)
           (act (HostNameResolved hostName)
              (s\<lparr>hostNamePromise := Fulfilled hostName,
                 startDocumentWrite := Writing (startUrl s) content\<rparr>)))"

definition initializeExtensionsServer_afterWrite ::
  "string \<Rightarrow> string \<Rightarrow> string \<Rightarrow> app_state \<Rightarrow> app_state" where
  "initializeExtensionsServer_afterWrite file content hostName s =
     addressFulfilled hostName
       (act WriteCompleted
          (s\<lparr>startDocumentWrite := Written, files := (files s)(file \<mapsto> content)\<rparr>))"

subsection \<open>The event handlers\<close>

text \<open>
  The \<open>second-instance\<close> handler asks the window whether it is visible and, after a
  possible \<open>show()\<close>, whether it is minimized; the two arguments are the answers.
\<close>

definition onSecondInstance :: "bool \<Rightarrow> bool \<Rightarrow> app_state \<Rightarrow> app_state" where
  "onSecondInstance isVisible isMinimized s =
     (case windowState s of
        None \<Rightarrow> s
      | Some window \<Rightarrow>
          (let s1 = (if \<not> isVisible then act WindowShow s else s);
               s2 = (if isMinimized then act WindowRestore s1 else s1)
           in act WindowFocus s2))"

definition onWindowAllClosed :: "environment \<Rightarrow> app_state \<Rightarrow> app_state" where
  "onWindowAllClosed env s = (if \<not> isMac env then act AppQuit s else s)"

definition onBeforeQuit :: "app_state \<Rightarrow> app_state" where
  "onBeforeQuit s = s\<lparr>willQuitApp := True\<rparr>"

definition onActivate :: "app_state \<Rightarrow> app_state" where
  "onActivate s =
     (case windowState s of
        None \<Rightarrow> s
      | Some window \<Rightarrow> act CheckForUpdate (act WindowShow s))"

text \<open>The \<open>teardown\<close> callback handed to \<open>createWindowState\<close>.\<close>

definition teardown :: "app_state \<Rightarrow> app_state" where
  "teardown s = s\<lparr>windowState := None\<rparr>"

definition registerIpcEventListeners :: "app_state \<Rightarrow> app_state" where
  "registerIpcEventListeners s = act RegisterIpcEventListeners (s\<lparr>ipcRegistered := True\<rparr>)"

definition finishApplicationInitialization :: "environment \<Rightarrow> app_state \<Rightarrow> app_state" where
  "finishApplicationInitialization env s =
     (let s1 = act (InitializeStrings (appLocale env)) s;
          s2 = (act CreateWindowState s1)\<lparr>windowState := Some WindowState\<rparr>;
          s3 = registerIpcEventListeners s2;
          s4 = (if (isWindows env \<or> isLinux env) \<and> shouldMinimizeToTray env
                then act CreateTrayIcon s3 else s3)
      in case extensionsServerAddress s4 of
           Pending \<Rightarrow> s4\<lparr>awaitingAddress := True\<rparr>
         | Fulfilled hostName \<Rightarrow> act (LoadURL (startUrl s4)) s4
         | Rejected error \<Rightarrow> s4)"

definition onReady :: "environment \<Rightarrow> app_state \<Rightarrow> app_state" where
  "onReady env s =
     (if \<not> isPrimaryInstance s
      then act AppQuit (act (ConsoleWarn ''Quiting app and focusing existing instance.'') s)
      else finishApplicationInitialization env s)"

subsection \<open>The IPC handlers\<close>

datatype ipc_message =
    DisplayAppMenu
  | InitialDataLoaded
  | MajorDataChange
  | ExtensionsServerAddress
  | UseSystemMenuBarMessage
  | WebRoot

text \<open>The listeners registered with \<open>ipcMain.on\<close>.\<close>

fun ipcListener :: "ipc_message \<Rightarrow> app_state \<Rightarrow> app_state" where
  "ipcListener DisplayAppMenu s = act PopupMenu s"
| "ipcListener InitialDataLoaded s = act BeginBackups s"
| "ipcListener MajorDataChange s = act PerformBackup s"
| "ipcListener ExtensionsServerAddress s = s"
| "ipcListener UseSystemMenuBarMessage s = s"
| "ipcListener WebRoot s = s"

text \<open>
  The handlers registered with \<open>ipcMain.handle\<close>, with what each returns. The handler
  of \<open>WebRoot\<close> looks at \<open>process.env\<close> when it is called, so it takes the
  surroundings of that moment. A handler may end by throwing; none of the three has a
  statement that throws.
\<close>

datatype reply =
    AddressReply "string promise"
  | SettingReply "bool option"
  | WebRootReply string

datatype ipc_error = NoHandlerRegistered | HandlerThrew string

fun ipcHandler ::
  "environment \<Rightarrow> ipc_message \<Rightarrow> app_state \<Rightarrow> (ipc_error + reply \<times> app_state)" where
  "ipcHandler env ExtensionsServerAddress s = Inr (AddressReply (extensionsServerAddress s), s)"
| "ipcHandler env UseSystemMenuBarMessage s = Inr (SettingReply (settings env UseSystemMenuBar), s)"
| "ipcHandler env WebRoot s =
     (let s1 = act ConsoleLog s
      in case processEnv env ''APP_RELATIVE_PATH'' of
           Some rel \<Rightarrow> Inr (WebRootReply (pathJoin env [''file://'', dirname env, rel]), s1)
         | None \<Rightarrow> Inr (WebRootReply (pathJoin env [''file://'', dirname env]), s1))"
| "ipcHandler env DisplayAppMenu s = Inl NoHandlerRegistered"
| "ipcHandler env InitialDataLoaded s = Inl NoHandlerRegistered"
| "ipcHandler env MajorDataChange s = Inl NoHandlerRegistered"

text \<open>\<open>ipcRenderer.invoke\<close> on a channel: Electron answers for channels without handler.\<close>

definition ipcInvoke ::
  "environment \<Rightarrow> ipc_message \<Rightarrow> app_state \<Rightarrow> (ipc_error + reply \<times> app_state)" where
  "ipcInvoke env message s =
     (if ipcRegistered s then ipcHandler env message s else Inl NoHandlerRegistered)"

subsection \<open>Events and runs\<close>

text \<open>
  What can happen to the process after \<open>initializeApplication\<close>, in any order: the
  events of \<open>app\<close>, the window closing, the two promises awaited by
  \<open>initializeExtensionsServer\<close> settling, and messages of the UI process. Electron
  emits \<open>ready\<close> once, a promise settles once, and only a call that was issued can
  settle; \<open>step\<close> drops what does not respect this and hands everything else to the
  handler in charge. \<open>app.quit()\<close> is recorded as the action \<open>AppQuit\<close>; how Electron
  then shuts the process down is not part of the model.
\<close>

datatype event =
    Ready
  | SecondInstance bool bool
  | WindowAllClosed
  | BeforeQuit
  | Activate
  | WindowClosed
  | ServerStarted string
  | ServerFailed string
  | WriteSucceeded
  | WriteFailed string
  | IpcSend ipc_message
  | IpcInvoke ipc_message

fun step :: "environment \<Rightarrow> event \<Rightarrow> app_state \<Rightarrow> app_state" where
  "step env Ready s =
     (if readyEmitted s then s else onReady env (s\<lparr>readyEmitted := True\<rparr>))"
| "step env (SecondInstance isVisible isMinimized) s = onSecondInstance isVisible isMinimized s"
| "step env WindowAllClosed s = onWindowAllClosed env s"
| "step env BeforeQuit s = onBeforeQuit s"
| "step env Activate s = onActivate s"
| "step env WindowClosed s = teardown s"
| "step env (ServerStarted hostName) s =
     (if hostNamePromise s = Pending
      then initializeExtensionsServer_afterHostName env hostName s
      else s)"
| "step env (ServerFailed error) s =
     (if hostNamePromise s = Pending
      then addressRejected error (s\<lparr>hostNamePromise := Rejected error\<rparr>)
      else s)"
| "step env WriteSucceeded s =
     (case (startDocumentWrite s, hostNamePromise s) of
        (Writing file content, Fulfilled hostName) \<Rightarrow>
          initializeExtensionsServer_afterWrite file content hostName s
      | _ \<Rightarrow> s)"
| "step env (WriteFailed error) s =
     (case startDocumentWrite s of
        Writing file content \<Rightarrow> addressRejected error (s\<lparr>startDocumentWrite := WriteError error\<rparr>)
      | _ \<Rightarrow> s)"
| "step env (IpcSend message) s = (if ipcRegistered s then ipcListener message s else s)"
| "step env (IpcInvoke message) s =
     (case ipcInvoke env message s of Inl e \<Rightarrow> s | Inr (r, s') \<Rightarrow> s')"

definition run :: "environment \<Rightarrow> event list \<Rightarrow> app_state" where
  "run env events = foldl (\<lambda>s e. step env e s) (initializeApplication env) events"

text \<open>Surroundings for concrete runs: a Linux installation without the variable set.\<close>

definition sampleEnv :: environment where
  "sampleEnv =
     \<lparr> lockGranted = True,
       processEnv = Map.empty,
       dirname = ''/opt/app/dist'',
       userData = ''/home/u/.config/app'',
       appLocale = ''en'',
       isMac = False,
       isWindows = False,
       isLinux = True,
       isDev = False,
       shouldMinimizeToTray = False,
       index = ''<script src='http://{{EXT_SERVER_HOST_NAME}}'></script><img src='{{BASE_URL}}/a.png'>'',
       pathJoin = posixJoin,
       settings = Map.empty,
       disk = Map.empty \<rparr>"

text \<open>
  Variants of these surroundings: a macOS installation, a process that does not get the
  single-instance lock, and an environment in which \<^verbatim>\<open>APP_RELATIVE_PATH\<close> is set.
\<close>

definition macEnv :: environment where
  "macEnv = sampleEnv\<lparr>isMac := True, isLinux := False\<rparr>"

definition secondEnv :: environment where
  "secondEnv = sampleEnv\<lparr>lockGranted := False\<rparr>"

definition relocatedEnv :: environment where
  "relocatedEnv = sampleEnv\<lparr>processEnv := [''APP_RELATIVE_PATH'' \<mapsto> ''../web'']\<rparr>"

subsection \<open>Vocabulary for traces\<close>

fun isDialog :: "action \<Rightarrow> bool" where
  "isDialog (ShowMessageBoxSync message) = True"
| "isDialog a = False"

fun isLoadURL :: "action \<Rightarrow> bool" where
  "isLoadURL (LoadURL url) = True"
| "isLoadURL a = False"

fun isWriteFile :: "action \<Rightarrow> bool" where
  "isWriteFile (WriteFile file content) = True"
| "isWriteFile a = False"

fun isHostNameResolved :: "action \<Rightarrow> bool" where
  "isHostNameResolved (HostNameResolved h) = True"
| "isHostNameResolved a = False"

text \<open>The actions of \<open>finishApplicationInitialization\<close>.\<close>

fun isBootAction :: "action \<Rightarrow> bool" where
  "isBootAction (InitializeStrings l) = True"
| "isBootAction CreateWindowState = True"
| "isBootAction RegisterIpcEventListeners = True"
| "isBootAction CreateTrayIcon = True"
| "isBootAction (LoadURL url) = True"
| "isBootAction a = False"

text \<open>
  The actions of the handlers that neither read nor change the state: those of
  \<open>second-instance\<close> and \<open>activate\<close> and of the IPC listeners and handlers.
\<close>

fun isPassive :: "action \<Rightarrow> bool" where
  "isPassive WindowShow = True"
| "isPassive WindowRestore = True"
| "isPassive WindowFocus = True"
| "isPassive CheckForUpdate = True"
| "isPassive PopupMenu = True"
| "isPassive BeginBackups = True"
| "isPassive PerformBackup = True"
| "isPassive ConsoleLog = True"
| "isPassive a = False"

text \<open>What \<open>finishApplicationInitialization\<close> does before its \<open>await\<close>.\<close>

definition bootActions :: "environment \<Rightarrow> action list" where
  "bootActions env =
     [InitializeStrings (appLocale env), CreateWindowState, RegisterIpcEventListeners]
       @ (if (isWindows env \<or> isLinux env) \<and> shouldMinimizeToTray env
          then [CreateTrayIcon] else [])"

text \<open>
  \<open>bootstrapped env p u\<close>: in the part \<open>p\<close> of a trace the IPC handlers are registered,
  and the host name has arrived, the start document has been handed to \<open>writeFile\<close> under
  the path \<open>u\<close> and the write has completed, in this order. \<open>eachLoadAfter G tr\<close>: each
  time the trace \<open>tr\<close> loads a URL, \<open>G\<close> holds of what precedes and of the URL.
\<close>

definition bootstrapped :: "environment \<Rightarrow> action list \<Rightarrow> string \<Rightarrow> bool" where
  "bootstrapped env p u =
     (u = startUrl (initializeApplication env)
      \<and> RegisterIpcEventListeners \<in> set p
      \<and> (\<exists>h. subseq [HostNameResolved h,
                       WriteFile u (buildIndexFile (index env) h
                                      (webRoot (initializeApplication env))),
                       WriteCompleted] p))"

definition eachLoadAfter :: "(action list \<Rightarrow> string \<Rightarrow> bool) \<Rightarrow> action list \<Rightarrow> bool" where
  "eachLoadAfter G tr = (\<forall>p u. prefix (p @ [LoadURL u]) tr \<longrightarrow> G p u)"

subsection \<open>Invariants of the runs\<close>

text \<open>
  How far \<open>initializeExtensionsServer\<close> has come determines the state of
  \<open>state.extensionsServerAddress\<close>: pending until the write has settled, then fulfilled with
  the host name, or rejected with the error of the step that failed.
\<close>

fun phaseOK :: "string promise \<Rightarrow> write_stage \<Rightarrow> string promise \<Rightarrow> bool" where
  "phaseOK Pending w a = (w = NotIssued \<and> a = Pending)"
| "phaseOK (Rejected error) w a = (w = NotIssued \<and> a = Rejected error)"
| "phaseOK (Fulfilled hostName) NotIssued a = False"
| "phaseOK (Fulfilled hostName) (Writing file content) a = (a = Pending)"
| "phaseOK (Fulfilled hostName) Written a = (a = Fulfilled hostName)"
| "phaseOK (Fulfilled hostName) (WriteError error) a = (a = Rejected error)"

definition stateInv :: "app_state \<Rightarrow> bool" where
  "stateInv s =
     (phaseOK (hostNamePromise s) (startDocumentWrite s) (extensionsServerAddress s)
      \<and> (awaitingAddress s \<longrightarrow> extensionsServerAddress s = Pending \<and> ipcRegistered s)
      \<and> (ipcRegistered s \<longrightarrow> readyEmitted s \<and> isPrimaryInstance s)
      \<and> (windowState s \<noteq> None \<longrightarrow> ipcRegistered s))"

text \<open>
  The write: its file and content, what is on disk, and that nothing is written before
  the host name has arrived. The paths and the lock answer never change, and the server is
  started once.
\<close>

fun writeOK ::
  "environment \<Rightarrow> string \<Rightarrow> string \<Rightarrow> string promise \<Rightarrow> write_stage
     \<Rightarrow> (string \<rightharpoonup> string) \<Rightarrow> action list \<Rightarrow> bool" where
  "writeOK env U W (Fulfilled hostName) (Writing file content) fs tr =
     (file = U \<and> content = buildIndexFile (index env) hostName W \<and> fs = disk env)"
| "writeOK env U W (Fulfilled hostName) Written fs tr =
     (fs = (disk env)(U \<mapsto> buildIndexFile (index env) hostName W))"
| "writeOK env U W (Fulfilled hostName) NotIssued fs tr = (fs = disk env)"
| "writeOK env U W (Fulfilled hostName) (WriteError error) fs tr = (fs = disk env)"
| "writeOK env U W Pending w fs tr = (fs = disk env \<and> filter isWriteFile tr = [])"
| "writeOK env U W (Rejected error) w fs tr = (fs = disk env \<and> filter isWriteFile tr = [])"

definition writeInv :: "environment \<Rightarrow> app_state \<Rightarrow> bool" where
  "writeInv env s =
     (startUrl s = startUrl (initializeApplication env)
      \<and> webRoot s = webRoot (initializeApplication env)
      \<and> isPrimaryInstance s = lockGranted env
      \<and> count_list (trace s) CreateExtensionsServer = 1
      \<and> writeOK env (startUrl (initializeApplication env)) (webRoot (initializeApplication env))
           (hostNamePromise s) (startDocumentWrite s) (files s) (trace s))"







text \<open>Without the lock, and before \<open>ready\<close>, nothing of the bootstrap has happened.\<close>

definition lostInv :: "app_state \<Rightarrow> bool" where
  "lostInv s =
     ((\<not> isPrimaryInstance s \<or> \<not> readyEmitted s \<longrightarrow>
         windowState s = None \<and> \<not> ipcRegistered s \<and> \<not> awaitingAddress s
         \<and> filter isBootAction (trace s) = [])
      \<and> (\<not> isPrimaryInstance s \<and> readyEmitted s \<longrightarrow> AppQuit \<in> set (trace s)))"



section \<open>Properties of the string operations\<close>

lemma getSubstitution_plain:
  "\<not> hasDollarPattern r \<Longrightarrow> getSubstitution m b a r = r"
  by (induction m b a r rule: getSubstitution.induct) auto

lemma borderless_HOST: "borderless HOST_TOKEN"
  by (simp add: borderless_def HOST_TOKEN_def upt_rec)

lemma borderless_BASE: "borderless BASE_TOKEN"
  by (simp add: borderless_def BASE_TOKEN_def upt_rec)

lemma tokens_nonempty: "HOST_TOKEN \<noteq> []" "BASE_TOKEN \<noteq> []"
  by (simp_all add: HOST_TOKEN_def BASE_TOKEN_def)

text \<open>
  An occurrence of a borderless text that starts before another occurrence of it ends
  before that one starts.
\<close>

lemma prefix_overlap:
  assumes "borderless pat" "r \<noteq> []" "prefix pat (r @ pat @ post)"
  shows "prefix pat r"
proof (cases "length pat \<le> length r")
  case True
  with assms(3) show ?thesis by (auto simp: prefix_append dest: prefix_length_le)
next
  case False
  define k where "k = length pat - length r"
  from False assms(2) have k: "1 \<le> k" "k < length pat" by (cases r; auto simp: k_def)+
  from assms(3) have "take (length pat) (r @ pat @ post) = pat"
    by (metis append_eq_conv_conj prefix_def)
  with False have "pat = r @ take k pat" by (simp add: k_def)
  then have "drop (length pat - k) pat = take k pat"
    by (metis False append_eq_conv_conj k_def diff_diff_cancel nat_le_linear)
  moreover from assms(1) k have "take k pat \<noteq> drop (length pat - k) pat"
    by (simp add: borderless_def)
  ultimately show ?thesis by simp
qed

lemma indexOf_sublist: "indexOf pat s = None \<longleftrightarrow> \<not> sublist pat s"
  by (induction s) (auto simp: sublist_Cons_right)

lemma indexOf_first:
  assumes "borderless pat" "pat \<noteq> []" "\<not> sublist pat pre"
  shows "indexOf pat (pre @ pat @ post) = Some (length pre)"
  using assms(3)
proof (induction pre)
  case Nil
  with assms(2) show ?case by (cases pat) auto
next
  case (Cons c pre)
  from Cons.prems have np: "\<not> prefix pat (c # pre)" and ns: "\<not> sublist pat pre"
    by (auto simp: sublist_Cons_right)
  have "\<not> prefix pat ((c # pre) @ pat @ post)"
    using prefix_overlap[OF assms(1), of "c # pre" post] np by blast
  with Cons.IH[OF ns] show ?case by simp
qed

lemma replaceString_first:
  assumes "borderless pat" "pat \<noteq> []" "\<not> sublist pat pre" "\<not> hasDollarPattern r"
  shows "replaceString pat r (pre @ pat @ post) = pre @ r @ post"
  using indexOf_first[OF assms(1-3), of post] assms(4)
  by (simp add: replaceString_def getSubstitution_plain)

lemma replaceString_absent: "\<not> sublist pat s \<Longrightarrow> replaceString pat r s = s"
  using indexOf_sublist[of pat s] by (simp add: replaceString_def)

lemma replaceFrom_free: "\<not> sublist pat s \<Longrightarrow> replaceFrom pat r seen s = s"
  by (induction s arbitrary: seen) (auto simp: sublist_Cons_right)

lemma replaceFrom_segment:
  assumes "borderless pat" "pat \<noteq> []" "\<not> hasDollarPattern r" "\<not> sublist pat s"
  shows "replaceFrom pat r seen (s @ pat @ rest)
           = s @ r @ replaceFrom pat r (seen @ s @ pat) rest"
  using assms(4)
proof (induction s arbitrary: seen)
  case Nil
  from assms(2) obtain c cs where pat: "pat = c # cs" by (cases pat) auto
  show ?case using assms(3) by (simp add: pat getSubstitution_plain)
next
  case (Cons c s)
  from Cons.prems have np: "\<not> prefix pat (c # s)" and ns: "\<not> sublist pat s"
    by (auto simp: sublist_Cons_right)
  have "\<not> prefix pat ((c # s) @ pat @ rest)"
    using prefix_overlap[OF assms(1), of "c # s" rest] np by blast
  with Cons.IH[OF ns, of "seen @ [c]"] show ?case by simp
qed

lemma replaceFrom_joinWith:
  "borderless pat \<Longrightarrow> pat \<noteq> [] \<Longrightarrow> \<not> hasDollarPattern r \<Longrightarrow>
   \<forall>s \<in> set segs. \<not> sublist pat s \<Longrightarrow>
   replaceFrom pat r seen (joinWith pat segs) = joinWith r segs"
proof (induction pat segs arbitrary: seen rule: joinWith.induct)
  case (1 sep)
  then show ?case by simp
next
  case (2 sep x)
  then show ?case by (simp add: replaceFrom_free)
next
  case (3 sep x y ys)
  then show ?case by (simp add: replaceFrom_segment)
qed

lemma replaceGlobal_BASE:
  "\<not> hasDollarPattern r \<Longrightarrow> \<forall>s \<in> set segs. \<not> sublist BASE_TOKEN s \<Longrightarrow>
   replaceGlobal BASE_TOKEN r (joinWith BASE_TOKEN segs) = joinWith r segs"
  by (simp add: replaceGlobal_def replaceFrom_joinWith borderless_BASE tokens_nonempty)

lemma replaceString_HOST:
  "\<not> hasDollarPattern r \<Longrightarrow> \<not> sublist HOST_TOKEN pre \<Longrightarrow>
   replaceString HOST_TOKEN r (pre @ HOST_TOKEN @ post) = pre @ r @ post"
  by (simp add: replaceString_first borderless_HOST tokens_nonempty)

text \<open>
  Every text can be cut in this way: a text in which a non-empty token occurs has a first
  occurrence of it, and every text is its token-free segments joined by the token. So
  the segment lists that the theorems below speak of exist for every template.
\<close>

lemma first_occurrence:
  assumes "pat \<noteq> []" "sublist pat s"
  shows "\<exists>pre post. s = pre @ pat @ post \<and> \<not> sublist pat pre"
  using assms(2)
proof (induction s)
  case Nil
  with assms(1) show ?case by simp
next
  case (Cons c cs)
  show ?case
  proof (cases "prefix pat (c # cs)")
    case True
    then obtain post where "c # cs = pat @ post" by (auto simp: prefix_def)
    with assms(1) show ?thesis by (intro exI[of _ "[]"] exI[of _ post]) simp
  next
    case False
    with Cons.prems have "sublist pat cs" by (simp add: sublist_Cons_right)
    with Cons.IH obtain pre post where cs: "cs = pre @ pat @ post" and free: "\<not> sublist pat pre"
      by blast
    have "\<not> prefix pat (c # pre)"
    proof
      assume "prefix pat (c # pre)"
      then have "prefix pat ((c # pre) @ pat @ post)" by (rule prefix_prefix)
      then have "prefix pat (c # pre @ pat @ post)" by simp
      with False cs show False by simp
    qed
    with free have "\<not> sublist pat (c # pre)" by (simp add: sublist_Cons_right)
    with cs show ?thesis by (intro exI[of _ "c # pre"] exI[of _ post]) simp
  qed
qed

lemma joinWith_Cons: "segs \<noteq> [] \<Longrightarrow> joinWith sep (x # segs) = x @ sep @ joinWith sep segs"
  by (cases segs) simp_all

lemma split_at_token:
  assumes "pat \<noteq> []"
  shows "\<exists>segs. segs \<noteq> [] \<and> s = joinWith pat segs \<and> (\<forall>x \<in> set segs. \<not> sublist pat x)"
proof (induction s rule: length_induct)
  case (1 s)
  show ?case
  proof (cases "sublist pat s")
    case False
    then show ?thesis by (intro exI[of _ "[s]"]) simp
  next
    case True
    with first_occurrence[OF assms] obtain pre post
      where s: "s = pre @ pat @ post" and free: "\<not> sublist pat pre" by blast
    with assms have "length post < length s" by simp
    with 1 obtain segs where segs: "segs \<noteq> []" "post = joinWith pat segs"
      "\<forall>x \<in> set segs. \<not> sublist pat x" by blast
    with s free show ?thesis
      by (intro exI[of _ "pre # segs"]) (simp add: joinWith_Cons)
  qed
qed

section \<open>The start-document builder: what it substitutes\<close>

text \<open>
  C4, as the claim states it, fails: on a template that holds the host-name token twice
  only the first one is substituted, so the result is not the template with all
  occurrences of both tokens substituted.
\<close>

theorem buildIndexFile_substitutes_all_counterexample:
  "buildIndexFile ''{{EXT_SERVER_HOST_NAME}},{{EXT_SERVER_HOST_NAME}}'' ''h'' ''b''
     = ''h,{{EXT_SERVER_HOST_NAME}}''
   \<and> buildIndexFile (joinWith HOST_TOKEN ['''', '','', '''']) ''h'' ''b''
       \<noteq> joinWith ''h'' ['''', '','', '''']"
  by (simp add: buildIndexFile_def replaceGlobal_def replaceString_def
      HOST_TOKEN_def BASE_TOKEN_def)

text \<open>
  C4, amended. Let \<open>hostName\<close> and \<open>baseUrl\<close> hold none of the special dollar patterns.
  If the template is \<open>pre @ HOST_TOKEN @ post\<close> with no host-name token inside \<open>pre\<close>,
  then \<open>buildIndexFile\<close> puts \<open>hostName\<close> in the place of that first token and then
  \<open>baseUrl\<close> in the place of every base-path token of the resulting text, everything
  else unchanged: when the text \<open>pre @ hostName @ post\<close> is cut at its base-path tokens
  into \<open>segs\<close>, the result is \<open>segs\<close> joined by \<open>baseUrl\<close>. If the template holds no
  host-name token, every base-path token of the template is substituted in the same way.
  On the template of the scenario the result is the text the scenario gives, and neither
  token occurs in it.
\<close>

theorem buildIndexFile_first_host_all_base:
  "(\<not> hasDollarPattern hostName \<and> \<not> hasDollarPattern baseUrl
      \<and> \<not> sublist HOST_TOKEN pre
      \<and> pre @ hostName @ post = joinWith BASE_TOKEN segs
      \<and> (\<forall>s \<in> set segs. \<not> sublist BASE_TOKEN s)
    \<longrightarrow> buildIndexFile (pre @ HOST_TOKEN @ post) hostName baseUrl = joinWith baseUrl segs)
   \<and> (\<not> hasDollarPattern baseUrl
      \<and> \<not> sublist HOST_TOKEN (joinWith BASE_TOKEN segs')
      \<and> (\<forall>s \<in> set segs'. \<not> sublist BASE_TOKEN s)
    \<longrightarrow> buildIndexFile (joinWith BASE_TOKEN segs') hostName baseUrl
          = joinWith baseUrl segs')
   \<and> buildIndexFile
        ''<script src='http://{{EXT_SERVER_HOST_NAME}}'></script><img src='{{BASE_URL}}/a.png'><img src='{{BASE_URL}}/b.png'>''
        ''ext.local:9999'' ''/app/root''
      = ''<script src='http://ext.local:9999'></script><img src='/app/root/a.png'><img src='/app/root/b.png'>''
   \<and> indexOf HOST_TOKEN
        ''<script src='http://ext.local:9999'></script><img src='/app/root/a.png'><img src='/app/root/b.png'>''
      = None
   \<and> indexOf BASE_TOKEN
        ''<script src='http://ext.local:9999'></script><img src='/app/root/a.png'><img src='/app/root/b.png'>''
      = None"
proof (intro conjI impI)
  assume h: "\<not> hasDollarPattern hostName \<and> \<not> hasDollarPattern baseUrl
      \<and> \<not> sublist HOST_TOKEN pre
      \<and> pre @ hostName @ post = joinWith BASE_TOKEN segs
      \<and> (\<forall>s \<in> set segs. \<not> sublist BASE_TOKEN s)"
  then have "replaceString HOST_TOKEN hostName (pre @ HOST_TOKEN @ post)
               = joinWith BASE_TOKEN segs"
    by (simp add: replaceString_HOST)
  with h show "buildIndexFile (pre @ HOST_TOKEN @ post) hostName baseUrl
                 = joinWith baseUrl segs"
    by (simp add: buildIndexFile_def replaceGlobal_BASE)
next
  assume h: "\<not> hasDollarPattern baseUrl
      \<and> \<not> sublist HOST_TOKEN (joinWith BASE_TOKEN segs')
      \<and> (\<forall>s \<in> set segs'. \<not> sublist BASE_TOKEN s)"
  then have "replaceString HOST_TOKEN hostName (joinWith BASE_TOKEN segs')
               = joinWith BASE_TOKEN segs'"
    by (simp add: replaceString_absent)
  with h show "buildIndexFile (joinWith BASE_TOKEN segs') hostName baseUrl
                 = joinWith baseUrl segs'"
    by (simp add: buildIndexFile_def replaceGlobal_BASE)
qed (simp_all add: buildIndexFile_def replaceGlobal_def replaceString_def
       HOST_TOKEN_def BASE_TOKEN_def)

theorem buildIndexFile_first_host_all_base_witness:
  "buildIndexFile (''<a {{BASE_URL}}/x>'' @ HOST_TOKEN @ ''</a>{{BASE_URL}}'')
       ''ext.local:9999'' ''/app/root''
     = ''<a /app/root/x>ext.local:9999</a>/app/root''
   \<and> buildIndexFile (joinWith BASE_TOKEN [''<a '', ''/x>'']) ''ext.local:9999'' ''/app/root''
     = ''<a /app/root/x>''"
  using buildIndexFile_first_host_all_base
    [of "''ext.local:9999''" "''/app/root''" "''<a {{BASE_URL}}/x>''" "''</a>{{BASE_URL}}''"
        "[''<a '', ''/x>ext.local:9999</a>'', '''']" "[''<a '', ''/x>'']"]
  by (simp add: indexOf_sublist[symmetric] HOST_TOKEN_def BASE_TOKEN_def)

text \<open>
  C9. The two tokens are treated differently. The string pattern of the first call
  replaces only the first host-name token: whatever follows it, further host-name tokens
  included, reaches the second call untouched. The global regular expression of the
  second call replaces every base-path token of its subject. So a template with the
  host-name token twice (and no base-path token) comes back with its second host-name
  token verbatim, and the template
  \<^verbatim>\<open>{{EXT_SERVER_HOST_NAME}}|{{EXT_SERVER_HOST_NAME}}|{{BASE_URL}}|{{BASE_URL}}\<close>
  is such a case.
\<close>

theorem buildIndexFile_asymmetric:
  "(\<not> hasDollarPattern hostName \<and> \<not> sublist HOST_TOKEN pre
      \<longrightarrow> buildIndexFile (pre @ HOST_TOKEN @ post) hostName baseUrl
            = replaceGlobal BASE_TOKEN baseUrl (pre @ hostName @ post))
   \<and> (\<not> hasDollarPattern baseUrl \<and> (\<forall>s \<in> set segs. \<not> sublist BASE_TOKEN s)
      \<longrightarrow> replaceGlobal BASE_TOKEN baseUrl (joinWith BASE_TOKEN segs) = joinWith baseUrl segs)
   \<and> (\<not> hasDollarPattern hostName \<and> \<not> sublist HOST_TOKEN pre'
        \<and> \<not> sublist BASE_TOKEN (pre' @ hostName @ mid @ HOST_TOKEN @ post')
      \<longrightarrow> buildIndexFile (pre' @ HOST_TOKEN @ mid @ HOST_TOKEN @ post') hostName baseUrl
            = pre' @ hostName @ mid @ HOST_TOKEN @ post')
   \<and> buildIndexFile
        ''{{EXT_SERVER_HOST_NAME}}|{{EXT_SERVER_HOST_NAME}}|{{BASE_URL}}|{{BASE_URL}}''
        ''ext.local:9999'' ''/app/root''
      = ''ext.local:9999|{{EXT_SERVER_HOST_NAME}}|/app/root|/app/root''"
proof (intro conjI impI)
  assume "\<not> hasDollarPattern hostName \<and> \<not> sublist HOST_TOKEN pre"
  then show "buildIndexFile (pre @ HOST_TOKEN @ post) hostName baseUrl
            = replaceGlobal BASE_TOKEN baseUrl (pre @ hostName @ post)"
    by (simp add: buildIndexFile_def replaceString_HOST)
next
  assume "\<not> hasDollarPattern baseUrl \<and> (\<forall>s \<in> set segs. \<not> sublist BASE_TOKEN s)"
  then show "replaceGlobal BASE_TOKEN baseUrl (joinWith BASE_TOKEN segs) = joinWith baseUrl segs"
    by (simp add: replaceGlobal_BASE)
next
  assume h: "\<not> hasDollarPattern hostName \<and> \<not> sublist HOST_TOKEN pre'
        \<and> \<not> sublist BASE_TOKEN (pre' @ hostName @ mid @ HOST_TOKEN @ post')"
  then have "replaceString HOST_TOKEN hostName (pre' @ HOST_TOKEN @ mid @ HOST_TOKEN @ post')
      = pre' @ hostName @ mid @ HOST_TOKEN @ post'"
    by (simp add: replaceString_HOST)
  with h show "buildIndexFile (pre' @ HOST_TOKEN @ mid @ HOST_TOKEN @ post') hostName baseUrl
            = pre' @ hostName @ mid @ HOST_TOKEN @ post'"
    by (simp add: buildIndexFile_def replaceGlobal_def replaceFrom_free)
next
  show "buildIndexFile
        ''{{EXT_SERVER_HOST_NAME}}|{{EXT_SERVER_HOST_NAME}}|{{BASE_URL}}|{{BASE_URL}}''
        ''ext.local:9999'' ''/app/root''
      = ''ext.local:9999|{{EXT_SERVER_HOST_NAME}}|/app/root|/app/root''"
    by (simp add: buildIndexFile_def replaceGlobal_def replaceString_def
       HOST_TOKEN_def BASE_TOKEN_def)
qed

theorem buildIndexFile_asymmetric_witness:
  "buildIndexFile (''<a>'' @ HOST_TOKEN @ ''<b {{BASE_URL}}>'') ''h:1'' ''/r''
     = replaceGlobal BASE_TOKEN ''/r'' (''<a>'' @ ''h:1'' @ ''<b {{BASE_URL}}>'')
   \<and> replaceGlobal BASE_TOKEN ''/r'' (joinWith BASE_TOKEN [''<a>h:1<b '', ''>'']) = ''<a>h:1<b /r>''
   \<and> buildIndexFile (''<a>'' @ HOST_TOKEN @ ''|'' @ HOST_TOKEN @ ''</a>'') ''h:1'' ''/r''
     = ''<a>h:1|{{EXT_SERVER_HOST_NAME}}</a>''"
  using buildIndexFile_asymmetric
    [of "''h:1''" "''<a>''" "''<b {{BASE_URL}}>''" "''/r''" "[''<a>h:1<b '', ''>'']"
        "''<a>''" "''|''" "''</a>''"]
  by (simp add: indexOf_sublist[symmetric] HOST_TOKEN_def BASE_TOKEN_def)

section \<open>Runs and their invariants\<close>

lemmas handler_defs = onReady_def finishApplicationInitialization_def
  registerIpcEventListeners_def addressFulfilled_def addressRejected_def
  initializeExtensionsServer_afterHostName_def initializeExtensionsServer_afterWrite_def
  onSecondInstance_def onWindowAllClosed_def onBeforeQuit_def onActivate_def
  teardown_def

lemma run_Nil: "run env [] = initializeApplication env"
  by (simp add: run_def)

lemma run_snoc: "run env (events @ [e]) = step env e (run env events)"
  by (simp add: run_def)

lemma run_append: "run env (xs @ ys) = foldl (\<lambda>s e. step env e s) (run env xs) ys"
  by (simp add: run_def)

text \<open>Events that add nothing but passive actions to the trace.\<close>

lemma passive_none: "\<exists>acts. list_all isPassive acts \<and> s = s\<lparr>trace := trace s @ acts\<rparr>"
  by (rule exI[of _ "[]"]) simp

lemma passive_one:
  "isPassive a \<Longrightarrow> \<exists>acts. list_all isPassive acts \<and> act a s = s\<lparr>trace := trace s @ acts\<rparr>"
  by (rule exI[of _ "[a]"]) (simp add: act_def)

lemma passive_two:
  "isPassive a \<Longrightarrow> isPassive b \<Longrightarrow>
   \<exists>acts. list_all isPassive acts \<and> act b (act a s) = s\<lparr>trace := trace s @ acts\<rparr>"
  by (rule exI[of _ "[a, b]"]) (simp add: act_def)

lemma passive_three:
  "isPassive a \<Longrightarrow> isPassive b \<Longrightarrow> isPassive c \<Longrightarrow>
   \<exists>acts. list_all isPassive acts \<and> act c (act b (act a s)) = s\<lparr>trace := trace s @ acts\<rparr>"
  by (rule exI[of _ "[a, b, c]"]) (simp add: act_def)

lemma step_passive_SecondInstance:
  "\<exists>acts. list_all isPassive acts \<and> step env (SecondInstance v m) s = s\<lparr>trace := trace s @ acts\<rparr>"
  by (cases "windowState s"; cases v; cases m)
    (simp_all add: onSecondInstance_def passive_none passive_one passive_two passive_three)

lemma step_passive_Activate:
  "\<exists>acts. list_all isPassive acts \<and> step env Activate s = s\<lparr>trace := trace s @ acts\<rparr>"
  by (cases "windowState s") (simp_all add: onActivate_def passive_none passive_two)

lemma step_passive_IpcSend:
  "\<exists>acts. list_all isPassive acts \<and> step env (IpcSend msg) s = s\<lparr>trace := trace s @ acts\<rparr>"
  by (cases "ipcRegistered s"; cases msg) (simp_all add: passive_none passive_one)

lemma step_passive_IpcInvoke:
  "\<exists>acts. list_all isPassive acts \<and> step env (IpcInvoke msg) s = s\<lparr>trace := trace s @ acts\<rparr>"
  by (cases "ipcRegistered s"; cases msg; cases "processEnv env ''APP_RELATIVE_PATH''")
    (simp_all add: ipcInvoke_def Let_def passive_none passive_one)

lemma stateInv_phase:
  assumes "stateInv s"
  obtains
    (awaitHost) "hostNamePromise s = Pending" "extensionsServerAddress s = Pending"
      "startDocumentWrite s = NotIssued"
  | (hostFailed) err where "hostNamePromise s = Rejected err"
      "extensionsServerAddress s = Rejected err" "startDocumentWrite s = NotIssued"
  | (writing) h f c where "hostNamePromise s = Fulfilled h" "startDocumentWrite s = Writing f c"
      "extensionsServerAddress s = Pending"
  | (written) h where "hostNamePromise s = Fulfilled h" "startDocumentWrite s = Written"
      "extensionsServerAddress s = Fulfilled h"
  | (writeFailed) h err where "hostNamePromise s = Fulfilled h"
      "startDocumentWrite s = WriteError err" "extensionsServerAddress s = Rejected err"
  using assms unfolding stateInv_def
  by (cases "hostNamePromise s"; cases "startDocumentWrite s") simp_all

lemma stateInv_rest:
  assumes "stateInv s"
  shows "awaitingAddress s \<Longrightarrow> extensionsServerAddress s = Pending"
    and "awaitingAddress s \<Longrightarrow> ipcRegistered s"
    and "ipcRegistered s \<Longrightarrow> readyEmitted s"
    and "ipcRegistered s \<Longrightarrow> isPrimaryInstance s"
    and "windowState s = Some w \<Longrightarrow> ipcRegistered s"
  using assms by (auto simp: stateInv_def)

lemma not_awaiting: "\<not> awaitingAddress s \<Longrightarrow> s\<lparr>awaitingAddress := False\<rparr> = s"
  by (cases s) simp

text \<open>The transitions of a state that satisfies the invariant, one case for each.\<close>

lemma step_cases [consumes 1, case_names unchanged quiet lostLock bootWait bootLoad bootFailed
    quitOnClose beforeQuit windowClosed hostName hostFailed written writeFailed]:
  assumes inv: "stateInv s"
  obtains
    (unchanged) "step env e s = s"
  | (quiet) acts where "list_all isPassive acts" "step env e s = s\<lparr>trace := trace s @ acts\<rparr>"
  | (lostLock) "e = Ready" "\<not> readyEmitted s" "\<not> isPrimaryInstance s"
      "step env e s = s\<lparr>readyEmitted := True,
         trace := trace s @ [ConsoleWarn ''Quiting app and focusing existing instance.'', AppQuit]\<rparr>"
  | (bootWait) "e = Ready" "\<not> readyEmitted s" "isPrimaryInstance s"
      "extensionsServerAddress s = Pending"
      "step env e s = s\<lparr>windowState := Some WindowState, awaitingAddress := True,
         readyEmitted := True, ipcRegistered := True, trace := trace s @ bootActions env\<rparr>"
  | (bootLoad) h where "e = Ready" "\<not> readyEmitted s" "isPrimaryInstance s"
      "extensionsServerAddress s = Fulfilled h"
      "step env e s = s\<lparr>windowState := Some WindowState,
         readyEmitted := True, ipcRegistered := True,
         trace := trace s @ bootActions env @ [LoadURL (startUrl s)]\<rparr>"
  | (bootFailed) err where "e = Ready" "\<not> readyEmitted s" "isPrimaryInstance s"
      "extensionsServerAddress s = Rejected err"
      "step env e s = s\<lparr>windowState := Some WindowState,
         readyEmitted := True, ipcRegistered := True, trace := trace s @ bootActions env\<rparr>"
  | (quitOnClose) "e = WindowAllClosed" "\<not> isMac env"
      "step env e s = s\<lparr>trace := trace s @ [AppQuit]\<rparr>"
  | (beforeQuit) "e = BeforeQuit" "step env e s = s\<lparr>willQuitApp := True\<rparr>"
  | (windowClosed) "e = WindowClosed" "step env e s = s\<lparr>windowState := None\<rparr>"
  | (hostName) h where "e = ServerStarted h" "hostNamePromise s = Pending"
      "extensionsServerAddress s = Pending" "startDocumentWrite s = NotIssued"
      "step env e s = s\<lparr>hostNamePromise := Fulfilled h,
         startDocumentWrite := Writing (startUrl s) (buildIndexFile (index env) h (webRoot s)),
         trace := trace s @ [HostNameResolved h,
           WriteFile (startUrl s) (buildIndexFile (index env) h (webRoot s))]\<rparr>"
  | (hostFailed) err where "e = ServerFailed err" "hostNamePromise s = Pending"
      "extensionsServerAddress s = Pending" "startDocumentWrite s = NotIssued"
      "step env e s = s\<lparr>extensionsServerAddress := Rejected err,
         hostNamePromise := Rejected err, awaitingAddress := False,
         trace := trace s @ [ShowMessageBoxSync err, AppQuit]\<rparr>"
  | (written) h f c where "e = WriteSucceeded" "hostNamePromise s = Fulfilled h"
      "startDocumentWrite s = Writing f c" "extensionsServerAddress s = Pending"
      "step env e s = s\<lparr>extensionsServerAddress := Fulfilled h,
         startDocumentWrite := Written, awaitingAddress := False,
         files := (files s)(f \<mapsto> c),
         trace := trace s @ [WriteCompleted]
                    @ (if awaitingAddress s then [LoadURL (startUrl s)] else [])\<rparr>"
  | (writeFailed) h f c err where "e = WriteFailed err" "hostNamePromise s = Fulfilled h"
      "startDocumentWrite s = Writing f c" "extensionsServerAddress s = Pending"
      "step env e s = s\<lparr>extensionsServerAddress := Rejected err,
         startDocumentWrite := WriteError err, awaitingAddress := False,
         trace := trace s @ [ShowMessageBoxSync err, AppQuit]\<rparr>"
proof (cases e)
  case Ready
  show ?thesis
  proof (cases "readyEmitted s")
    case True
    with Ready show ?thesis by (intro unchanged) simp
  next
    case notYet: False
    show ?thesis
    proof (cases "isPrimaryInstance s")
      case False
      with Ready notYet show ?thesis
        by (intro lostLock) (simp_all add: onReady_def act_def)
    next
      case True
      from notYet stateInv_rest(2,3)[OF inv] have na: "\<not> awaitingAddress s" by blast
      show ?thesis
      proof (cases "extensionsServerAddress s")
        case Pending
        with Ready notYet True show ?thesis
          by (intro bootWait)
            (simp_all add: onReady_def finishApplicationInitialization_def
              registerIpcEventListeners_def act_def bootActions_def Let_def)
      next
        case (Fulfilled h)
        with Ready notYet True show ?thesis
          by (intro bootLoad[of h])
            (simp_all add: onReady_def finishApplicationInitialization_def
              registerIpcEventListeners_def act_def bootActions_def Let_def)
      next
        case (Rejected err)
        with Ready notYet True show ?thesis
          by (intro bootFailed[of err])
            (simp_all add: onReady_def finishApplicationInitialization_def
              registerIpcEventListeners_def act_def bootActions_def Let_def)
      qed
    qed
  qed
next
  case (SecondInstance v m)
  with step_passive_SecondInstance[of env v m s] quiet show ?thesis by blast
next
  case WindowAllClosed
  then show ?thesis
    by (cases "isMac env") (auto intro: unchanged quitOnClose simp: onWindowAllClosed_def act_def)
next
  case BeforeQuit
  then show ?thesis by (intro beforeQuit) (simp_all add: onBeforeQuit_def)
next
  case Activate
  with step_passive_Activate[of env s] quiet show ?thesis by blast
next
  case WindowClosed
  then show ?thesis by (intro windowClosed) (simp_all add: teardown_def)
next
  case (ServerStarted h)
  from inv show ?thesis
  proof (cases rule: stateInv_phase)
    case awaitHost
    with ServerStarted show ?thesis
      by (intro hostName[of h]) (simp_all add: initializeExtensionsServer_afterHostName_def act_def Let_def)
  qed (use ServerStarted in \<open>(intro unchanged, simp)+\<close>)
next
  case (ServerFailed err)
  from inv show ?thesis
  proof (cases rule: stateInv_phase)
    case awaitHost
    with ServerFailed show ?thesis
      by (intro hostFailed[of err]) (simp_all add: addressRejected_def act_def)
  qed (use ServerFailed in \<open>(intro unchanged, simp)+\<close>)
next
  case WriteSucceeded
  from inv show ?thesis
  proof (cases rule: stateInv_phase)
    case (writing h f c)
    show ?thesis
    proof (cases "awaitingAddress s")
      case True
      with WriteSucceeded writing show ?thesis
        by (intro written[of h f c])
          (simp_all add: initializeExtensionsServer_afterWrite_def addressFulfilled_def act_def Let_def)
    next
      case False
      have "step env e s = (s\<lparr>awaitingAddress := False\<rparr>)\<lparr>extensionsServerAddress := Fulfilled h,
         startDocumentWrite := Written, files := (files s)(f \<mapsto> c),
         trace := trace s @ [WriteCompleted]\<rparr>"
        using WriteSucceeded writing False
        by (simp add: initializeExtensionsServer_afterWrite_def addressFulfilled_def act_def Let_def not_awaiting)
      with WriteSucceeded writing False show ?thesis
        by (intro written[of h f c]) simp_all
    qed
  qed (use WriteSucceeded in \<open>(intro unchanged, simp)+\<close>)
next
  case (WriteFailed err)
  from inv show ?thesis
  proof (cases rule: stateInv_phase)
    case (writing h f c)
    with WriteFailed show ?thesis
      by (intro writeFailed[of err h f c]) (simp_all add: addressRejected_def act_def)
  qed (use WriteFailed in \<open>(intro unchanged, simp)+\<close>)
next
  case (IpcSend msg)
  with step_passive_IpcSend[of env msg s] quiet show ?thesis by blast
next
  case (IpcInvoke msg)
  with step_passive_IpcInvoke[of env msg s] quiet show ?thesis by blast
qed

lemma passive_props:
  assumes "list_all isPassive acts"
  shows "filter isDialog acts = []" "filter isLoadURL acts = []" "filter isWriteFile acts = []"
    "filter isBootAction acts = []" "count_list acts CreateExtensionsServer = 0"
    "AppQuit \<notin> set acts" "RegisterIpcEventListeners \<notin> set acts" "WriteCompleted \<notin> set acts"
    "filter isHostNameResolved acts = []"
proof -
  have "\<And>a. isPassive a \<Longrightarrow> \<not> isDialog a \<and> \<not> isLoadURL a \<and> \<not> isWriteFile a
      \<and> \<not> isBootAction a \<and> a \<noteq> CreateExtensionsServer \<and> a \<noteq> AppQuit
      \<and> a \<noteq> RegisterIpcEventListeners \<and> a \<noteq> WriteCompleted \<and> \<not> isHostNameResolved a"
    subgoal for a by (cases a) simp_all
    done
  with assms show "filter isDialog acts = []" "filter isLoadURL acts = []"
    "filter isWriteFile acts = []" "filter isBootAction acts = []"
    "count_list acts CreateExtensionsServer = 0"
    "AppQuit \<notin> set acts" "RegisterIpcEventListeners \<notin> set acts" "WriteCompleted \<notin> set acts"
    "filter isHostNameResolved acts = []"
    by (auto simp: list_all_iff filter_empty_conv count_list_0_iff)
qed

lemma bootActions_props:
  "filter isDialog (bootActions env) = []" "filter isLoadURL (bootActions env) = []"
  "filter isWriteFile (bootActions env) = []"
  "count_list (bootActions env) CreateExtensionsServer = 0"
  "AppQuit \<notin> set (bootActions env)" "RegisterIpcEventListeners \<in> set (bootActions env)"
  "CreateWindowState \<in> set (bootActions env)"
  "filter isHostNameResolved (bootActions env) = []"
  by (simp_all add: bootActions_def)

lemma stateInv_init: "stateInv (initializeApplication env)"
  by (simp add: stateInv_def initializeApplication_def)

lemma stateInv_step:
  assumes inv: "stateInv s"
  shows "stateInv (step env e s)"
  using inv
proof (cases rule: step_cases[of s env e])
qed (use inv in \<open>auto simp: stateInv_def\<close>)

lemma stateInv_run: "stateInv (run env events)"
  by (induction events rule: rev_induct) (simp_all add: run_Nil run_snoc stateInv_init stateInv_step)

lemma run_invariant:
  assumes "P (initializeApplication env)"
    and "\<And>s e. stateInv s \<Longrightarrow> P s \<Longrightarrow> P (step env e s)"
  shows "P (run env events)"
proof (induction events rule: rev_induct)
  case Nil
  show ?case by (simp add: run_Nil assms(1))
next
  case (snoc e events)
  then show ?case using stateInv_run[of env events] by (simp add: run_snoc assms(2))
qed

lemma writeOK_append:
  "writeOK env U W p w fs tr \<Longrightarrow> filter isWriteFile acts = [] \<Longrightarrow>
   writeOK env U W p w fs (tr @ acts)"
  by (cases p; cases w) simp_all

lemma writeInv_init: "writeInv env (initializeApplication env)"
  by (simp add: writeInv_def initializeApplication_def)

lemma writeInv_step:
  assumes inv: "stateInv s" and w: "writeInv env s"
  shows "writeInv env (step env e s)"
  using inv
proof (cases rule: step_cases[of s env e])
  case (quiet acts)
  with w passive_props[OF quiet(1)] show ?thesis
    by (simp add: writeInv_def writeOK_append)
next
  case bootWait
  with w bootActions_props[of env] show ?thesis
    by (simp add: writeInv_def writeOK_append)
next
  case (bootLoad h)
  with w bootActions_props[of env] show ?thesis
    by (simp add: writeInv_def writeOK_append)
next
  case (bootFailed err)
  with w bootActions_props[of env] show ?thesis
    by (simp add: writeInv_def writeOK_append)
next
  case (written h f c)
  with w show ?thesis by (auto simp: writeInv_def)
qed (use w in \<open>simp_all add: writeInv_def writeOK_append\<close>)

lemma writeInv_run: "writeInv env (run env events)"
  by (rule run_invariant) (simp_all add: writeInv_init writeInv_step)











lemma lostInv_init: "lostInv (initializeApplication env)"
  by (simp add: lostInv_def initializeApplication_def)

lemma lostInv_step:
  assumes inv: "stateInv s" and l: "lostInv s"
  shows "lostInv (step env e s)"
  using inv
proof (cases rule: step_cases[of s env e])
  case (quiet acts)
  with l passive_props[OF quiet(1)] show ?thesis
    by (auto simp: lostInv_def)
qed (use l in \<open>auto simp: lostInv_def\<close>)

lemma lostInv_run: "lostInv (run env events)"
  by (rule run_invariant) (simp_all add: lostInv_init lostInv_step)

lemma readyEmitted_run: "Ready \<in> set events \<Longrightarrow> readyEmitted (run env events)"
proof (induction events rule: rev_induct)
  case Nil
  then show ?case by simp
next
  case (snoc e events)
  have mono: "readyEmitted (run env events) \<Longrightarrow> readyEmitted (step env e (run env events))"
    using stateInv_run[of env events]
    by (cases rule: step_cases[of "run env events" env e]) simp_all
  have now: "e = Ready \<Longrightarrow> readyEmitted (step env e (run env events))"
    by (auto simp: handler_defs act_def Let_def split: promise.splits)
  from snoc mono now show ?case by (auto simp: run_snoc)
qed

lemma not_readyEmitted_run: "Ready \<notin> set events \<Longrightarrow> \<not> readyEmitted (run env events)"
proof (induction events rule: rev_induct)
  case Nil
  show ?case by (simp add: run_Nil initializeApplication_def)
next
  case (snoc e events)
  then have *: "\<not> readyEmitted (run env events)" "e \<noteq> Ready" by auto
  from stateInv_run[of env events] show ?case using *
    by (cases rule: step_cases[of "run env events" env e]) (simp_all add: run_snoc)
qed

lemma no_window_before_ready: "Ready \<notin> set events \<Longrightarrow> windowState (run env events) = None"
  using stateInv_run[of env events] not_readyEmitted_run[of events env]
  by (auto simp: stateInv_def)

lemma eachLoadAfter_Nil: "eachLoadAfter G []"
  by (simp add: eachLoadAfter_def)





lemma bootstrapped_append: "bootstrapped env p u \<Longrightarrow> bootstrapped env (p @ acts) u"
  unfolding bootstrapped_def using subseq_rev_drop_many by fastforce




text \<open>A settled promise stays as it is.\<close>

lemma host_rejected_stays:
  assumes "stateInv s" "hostNamePromise s = Rejected error"
  shows "hostNamePromise (step env e s) = Rejected error"
  using assms by (cases rule: step_cases[of s env e]) simp_all

lemma host_rejected_stays_run:
  "hostNamePromise (run env events) = Rejected error \<Longrightarrow>
   hostNamePromise (run env (events @ later)) = Rejected error"
proof (induction later rule: rev_induct)
  case Nil
  then show ?case by simp
next
  case (snoc e later)
  then show ?case
    using host_rejected_stays[OF stateInv_run[of env "events @ later"], of error env e]
    by (simp add: run_snoc[of env "events @ later" e, simplified])
qed










section \<open>The claims about the lifecycle\<close>





text \<open>
  What the gate of the \<open>ready\<close> handler does achieve. For every process start in which
  the lock is held by another instance, and whatever happens afterwards: no step of
  \<open>finishApplicationInitialization\<close> is ever taken (no strings initialised, no window
  bundle created, no IPC handler registered, no tray icon, no URL loaded), there is no
  window handle, and the \<open>ready\<close> handler does nothing but warn and call \<open>app.quit()\<close>.
\<close>

theorem lost_lock_never_boots:
  "\<not> lockGranted env \<longrightarrow>
     filter isBootAction (trace (run env events)) = []
     \<and> windowState (run env events) = None
     \<and> \<not> ipcRegistered (run env events)
     \<and> (Ready \<in> set events \<longrightarrow> AppQuit \<in> set (trace (run env events)))
     \<and> (Ready \<notin> set events \<longrightarrow>
          run env (events @ [Ready])
            = (run env events)\<lparr>readyEmitted := True,
                trace := trace (run env events)
                  @ [ConsoleWarn ''Quiting app and focusing existing instance.'', AppQuit]\<rparr>)"
proof
  assume lost: "\<not> lockGranted env"
  let ?s = "run env events"
  from lost writeInv_run[of env events] have np: "\<not> isPrimaryInstance ?s"
    by (simp add: writeInv_def)
  with lostInv_run[of env events] readyEmitted_run[of events env]
  have a: "filter isBootAction (trace ?s) = []" "windowState ?s = None" "\<not> ipcRegistered ?s"
    "Ready \<in> set events \<longrightarrow> AppQuit \<in> set (trace ?s)"
    by (auto simp: lostInv_def)
  have "Ready \<notin> set events \<longrightarrow> run env (events @ [Ready])
            = ?s\<lparr>readyEmitted := True,
                trace := trace ?s
                  @ [ConsoleWarn ''Quiting app and focusing existing instance.'', AppQuit]\<rparr>"
    using np not_readyEmitted_run[of events env] by (simp add: run_snoc onReady_def act_def)
  with a show "filter isBootAction (trace ?s) = []
     \<and> windowState ?s = None
     \<and> \<not> ipcRegistered ?s
     \<and> (Ready \<in> set events \<longrightarrow> AppQuit \<in> set (trace ?s))
     \<and> (Ready \<notin> set events \<longrightarrow>
          run env (events @ [Ready])
            = ?s\<lparr>readyEmitted := True,
                trace := trace ?s
                  @ [ConsoleWarn ''Quiting app and focusing existing instance.'', AppQuit]\<rparr>)"
    by blast
qed

theorem lost_lock_never_boots_witness:
  "filter isBootAction
       (trace (run secondEnv [ServerStarted ''127.0.0.1:45653'', Ready, Activate])) = []
   \<and> windowState (run secondEnv [ServerStarted ''127.0.0.1:45653'', Ready, Activate]) = None
   \<and> AppQuit \<in> set (trace (run secondEnv [ServerStarted ''127.0.0.1:45653'', Ready, Activate]))"
proof -
  have h1: "\<not> lockGranted secondEnv" by (simp add: secondEnv_def)
  have h2: "Ready \<in> set [ServerStarted ''127.0.0.1:45653'', Ready, Activate]" by simp
  from lost_lock_never_boots[of secondEnv "[ServerStarted ''127.0.0.1:45653'', Ready, Activate]"]
    h1 h2
  show ?thesis by blast
qed



text \<open>
  C5, as the claim states it, fails. The handler of the web-root request does not read
  the resource base path kept in the state: it looks at \<open>process.env\<close> again when it is
  called. With the variable absent at process start and present at the call, the reply is
  not the file URL of the stored base path.
\<close>

theorem web_root_reply_from_stored_path_counterexample:
  "webRoot (run sampleEnv [Ready]) = ''/opt/app/dist''
   \<and> pathJoin relocatedEnv [''file://'', webRoot (run sampleEnv [Ready])] = ''file:/opt/app/dist''
   \<and> map_sum id fst (ipcInvoke relocatedEnv WebRoot (run sampleEnv [Ready]))
       = Inr (WebRootReply ''file:/opt/app/web'')"
  by code_simp

text \<open>
  C5, amended. Once the handlers are registered, the reply to the web-root request is
  computed at each call from the surroundings of that call: \<open>path.join\<close> of
  \<^verbatim>\<open>file://\<close>, the module directory and, if the variable \<^verbatim>\<open>APP_RELATIVE_PATH\<close> is in
  the environment then, its value. The resource base path kept in the state is computed
  once, by \<open>initializeApplication\<close>, in the same way without the \<^verbatim>\<open>file://\<close> part (and
  without \<open>path.join\<close> when the variable is absent), and no event changes it.
\<close>

theorem web_root_reply_recomputed:
  "(ipcRegistered (run env events) \<longrightarrow>
      ipcInvoke env' WebRoot (run env events)
        = Inr (WebRootReply
                 (case processEnv env' ''APP_RELATIVE_PATH'' of
                    Some rel \<Rightarrow> pathJoin env' [''file://'', dirname env', rel]
                  | None \<Rightarrow> pathJoin env' [''file://'', dirname env']),
               (run env events)\<lparr>trace := trace (run env events) @ [ConsoleLog]\<rparr>))
   \<and> webRoot (run env events)
       = (case processEnv env ''APP_RELATIVE_PATH'' of
            Some rel \<Rightarrow> pathJoin env [dirname env, rel]
          | None \<Rightarrow> dirname env)"
  using writeInv_run[of env events]
  by (auto simp: writeInv_def initializeApplication_def ipcInvoke_def act_def Let_def
      split: option.splits)

theorem web_root_reply_recomputed_witness:
  "ipcInvoke relocatedEnv WebRoot (run sampleEnv [Ready])
     = Inr (WebRootReply ''file:/opt/app/web'',
            (run sampleEnv [Ready])\<lparr>trace := trace (run sampleEnv [Ready]) @ [ConsoleLog]\<rparr>)
   \<and> ipcInvoke sampleEnv WebRoot (run sampleEnv [Ready])
     = Inr (WebRootReply ''file:/opt/app/dist'',
            (run sampleEnv [Ready])\<lparr>trace := trace (run sampleEnv [Ready]) @ [ConsoleLog]\<rparr>)"
proof -
  have h1: "ipcRegistered (run sampleEnv [Ready])" by code_simp
  have h2: "(case processEnv relocatedEnv ''APP_RELATIVE_PATH'' of
                    Some rel \<Rightarrow> pathJoin relocatedEnv [''file://'', dirname relocatedEnv, rel]
                  | None \<Rightarrow> pathJoin relocatedEnv [''file://'', dirname relocatedEnv])
            = ''file:/opt/app/web''" by code_simp
  have h3: "(case processEnv sampleEnv ''APP_RELATIVE_PATH'' of
                    Some rel \<Rightarrow> pathJoin sampleEnv [''file://'', dirname sampleEnv, rel]
                  | None \<Rightarrow> pathJoin sampleEnv [''file://'', dirname sampleEnv])
            = ''file:/opt/app/dist''" by code_simp
  from web_root_reply_recomputed[of sampleEnv "[Ready]" relocatedEnv] h1 h2
    web_root_reply_recomputed[of sampleEnv "[Ready]" sampleEnv] h3
  show ?thesis by simp
qed

text \<open>
  C6. On a second-instance launch, if the state holds a window handle, the handler calls
  \<open>show()\<close> when the window says it is not visible, \<open>restore()\<close> when it says it is
  minimized, and \<open>focus()\<close> in every case, and does nothing else (no window is created).
  If there is no window handle the state stays as it is; in particular this is so for
  every launch that arrives before \<open>ready\<close>.
\<close>

theorem second_instance_focuses_window:
  "(windowState s = Some window \<longrightarrow>
      step env (SecondInstance isVisible isMinimized) s
        = s\<lparr>trace := trace s @ (if isVisible then [] else [WindowShow])
                            @ (if isMinimized then [WindowRestore] else [])
                            @ [WindowFocus]\<rparr>)
   \<and> (windowState s = None \<longrightarrow> step env (SecondInstance isVisible isMinimized) s = s)
   \<and> (Ready \<notin> set events \<longrightarrow>
        run env (events @ [SecondInstance isVisible isMinimized]) = run env events)"
  using no_window_before_ready[of events env]
  by (auto simp: run_snoc onSecondInstance_def act_def)

theorem second_instance_focuses_window_witness:
  "step sampleEnv (SecondInstance False False) (run sampleEnv [Ready])
     = (run sampleEnv [Ready])\<lparr>trace := trace (run sampleEnv [Ready]) @ [WindowShow, WindowFocus]\<rparr>
   \<and> step sampleEnv (SecondInstance False True) (run sampleEnv [Ready, WindowClosed])
       = run sampleEnv [Ready, WindowClosed]
   \<and> run sampleEnv ([ServerStarted ''127.0.0.1:45653''] @ [SecondInstance False True])
       = run sampleEnv [ServerStarted ''127.0.0.1:45653'']"
proof -
  have h1: "windowState (run sampleEnv [Ready]) = Some WindowState" by code_simp
  have h2: "windowState (run sampleEnv [Ready, WindowClosed]) = None" by code_simp
  have h3: "Ready \<notin> set [ServerStarted ''127.0.0.1:45653'']" by simp
  from second_instance_focuses_window
      [of "run sampleEnv [Ready]" WindowState sampleEnv False False "[]"] h1
  have c1: "step sampleEnv (SecondInstance False False) (run sampleEnv [Ready])
     = (run sampleEnv [Ready])\<lparr>trace := trace (run sampleEnv [Ready]) @ [WindowShow, WindowFocus]\<rparr>"
    by simp
  from second_instance_focuses_window
      [of "run sampleEnv [Ready, WindowClosed]" WindowState sampleEnv False True
          "[ServerStarted ''127.0.0.1:45653'']"] h2 h3
  have "step sampleEnv (SecondInstance False True) (run sampleEnv [Ready, WindowClosed])
       = run sampleEnv [Ready, WindowClosed]
   \<and> run sampleEnv ([ServerStarted ''127.0.0.1:45653''] @ [SecondInstance False True])
       = run sampleEnv [ServerStarted ''127.0.0.1:45653'']"
    by blast
  with c1 show ?thesis by blast
qed

text \<open>
  C7. When all windows are closed, the handler calls \<open>app.quit()\<close> and does nothing else
  if \<open>isMac()\<close> is false; if \<open>isMac()\<close> is true it leaves the state as it is, also when
  \<open>before-quit\<close> was emitted just before: then the quit flag is set and nothing was added
  to the trace.
\<close>

theorem window_all_closed_quits_unless_mac:
  "(\<not> isMac env \<longrightarrow> step env WindowAllClosed s = s\<lparr>trace := trace s @ [AppQuit]\<rparr>)
   \<and> (isMac env \<longrightarrow> step env WindowAllClosed s = s
        \<and> run env (events @ [BeforeQuit, WindowAllClosed]) = run env (events @ [BeforeQuit])
        \<and> trace (run env (events @ [BeforeQuit, WindowAllClosed])) = trace (run env events)
        \<and> willQuitApp (run env (events @ [BeforeQuit, WindowAllClosed])))"
  by (simp add: run_append onWindowAllClosed_def onBeforeQuit_def act_def)

theorem window_all_closed_quits_unless_mac_witness:
  "step sampleEnv WindowAllClosed (run sampleEnv [Ready])
     = (run sampleEnv [Ready])\<lparr>trace := trace (run sampleEnv [Ready]) @ [AppQuit]\<rparr>
   \<and> step macEnv WindowAllClosed (run macEnv [Ready]) = run macEnv [Ready]
   \<and> trace (run macEnv ([Ready] @ [BeforeQuit, WindowAllClosed])) = trace (run macEnv [Ready])"
proof -
  have h1: "\<not> isMac sampleEnv" by (simp add: sampleEnv_def)
  have h2: "isMac macEnv" by (simp add: macEnv_def)
  from window_all_closed_quits_unless_mac[of sampleEnv "run sampleEnv [Ready]" "[]"] h1
    window_all_closed_quits_unless_mac[of macEnv "run macEnv [Ready]" "[Ready]"] h2
  show ?thesis by blast
qed

text \<open>
  C8. In every state in which the handlers are registered, each of the three request
  handlers returns a value and does not throw: the address handler returns the promise
  \<open>state.extensionsServerAddress\<close> itself, whatever its state, and leaves the state as
  it is; the settings handler returns what the store holds; the web-root handler returns
  a URL. That promise is never fulfilled early: when it is fulfilled with a host name, the
  server has delivered this host name and the start document built from it is on disk.
  \<open>createExtensionsServer()\<close> is called exactly once in every run.
\<close>

theorem ipc_request_handlers_reply:
  "(ipcRegistered (run env events) \<longrightarrow>
      ipcInvoke env' ExtensionsServerAddress (run env events)
        = Inr (AddressReply (extensionsServerAddress (run env events)), run env events)
      \<and> ipcInvoke env' UseSystemMenuBarMessage (run env events)
        = Inr (SettingReply (settings env' UseSystemMenuBar), run env events)
      \<and> (\<exists>url. ipcInvoke env' WebRoot (run env events)
            = Inr (WebRootReply url,
                   (run env events)\<lparr>trace := trace (run env events) @ [ConsoleLog]\<rparr>)))
   \<and> (extensionsServerAddress (run env events) = Fulfilled h \<longrightarrow>
        hostNamePromise (run env events) = Fulfilled h
        \<and> startDocumentWrite (run env events) = Written
        \<and> files (run env events) (startUrl (run env events))
            = Some (buildIndexFile (index env) h (webRoot (run env events))))
   \<and> count_list (trace (run env events)) CreateExtensionsServer = 1"
proof (intro conjI impI)
  let ?s = "run env events"
  assume f: "extensionsServerAddress ?s = Fulfilled h"
  from stateInv_run[of env events] f
  have ph: "hostNamePromise ?s = Fulfilled h" "startDocumentWrite ?s = Written"
    by (cases rule: stateInv_phase; simp)+
  then show "hostNamePromise ?s = Fulfilled h" "startDocumentWrite ?s = Written" by simp_all
  from writeInv_run[of env events] ph
  show "files ?s (startUrl ?s) = Some (buildIndexFile (index env) h (webRoot ?s))"
    by (simp add: writeInv_def)
next
  show "count_list (trace (run env events)) CreateExtensionsServer = 1"
    using writeInv_run[of env events] by (simp add: writeInv_def)
qed (auto simp: ipcInvoke_def act_def Let_def split: option.splits)

theorem ipc_request_handlers_reply_witness:
  "ipcInvoke sampleEnv ExtensionsServerAddress (run sampleEnv [Ready])
     = Inr (AddressReply Pending, run sampleEnv [Ready])
   \<and> ipcInvoke sampleEnv UseSystemMenuBarMessage (run sampleEnv [Ready])
     = Inr (SettingReply None, run sampleEnv [Ready])
   \<and> hostNamePromise (run sampleEnv [ServerStarted ''127.0.0.1:45653'', WriteSucceeded])
     = Fulfilled ''127.0.0.1:45653''"
proof -
  have h1: "ipcRegistered (run sampleEnv [Ready])" by code_simp
  have h2: "extensionsServerAddress (run sampleEnv [Ready]) = Pending" by code_simp
  have h3: "settings sampleEnv UseSystemMenuBar = None" by (simp add: sampleEnv_def)
  have h4: "extensionsServerAddress (run sampleEnv [ServerStarted ''127.0.0.1:45653'', WriteSucceeded])
     = Fulfilled ''127.0.0.1:45653''" by code_simp
  from ipc_request_handlers_reply[of sampleEnv "[Ready]" sampleEnv] h1 h2 h3
    ipc_request_handlers_reply[of sampleEnv "[ServerStarted ''127.0.0.1:45653'', WriteSucceeded]"
      sampleEnv "''127.0.0.1:45653''"] h4
  show ?thesis by simp
qed

text \<open>
  C10. If the promise of \<open>createExtensionsServer()\<close> is rejected, then from then on,
  whatever happens later, it stays rejected, \<open>fs.promises.writeFile\<close> has not been called
  and the files on disk are those found at process start. The promise is rejected when the
  server fails while it is still pending, and \<open>state.extensionsServerAddress\<close> is
  rejected with it.
\<close>

theorem server_failure_writes_nothing:
  "(hostNamePromise (run env events) = Rejected error \<longrightarrow>
      hostNamePromise (run env (events @ later)) = Rejected error
      \<and> filter isWriteFile (trace (run env (events @ later))) = []
      \<and> startDocumentWrite (run env (events @ later)) = NotIssued
      \<and> files (run env (events @ later)) = disk env)
   \<and> (hostNamePromise (run env events) = Pending \<longrightarrow>
        hostNamePromise (run env (events @ [ServerFailed error])) = Rejected error
        \<and> extensionsServerAddress (run env (events @ [ServerFailed error])) = Rejected error)"
proof (intro conjI impI)
  let ?s = "run env (events @ later)"
  assume "hostNamePromise (run env events) = Rejected error"
  then have r: "hostNamePromise ?s = Rejected error" by (rule host_rejected_stays_run)
  then show "hostNamePromise ?s = Rejected error" .
  from writeInv_run[of env "events @ later"] r
  show "filter isWriteFile (trace ?s) = []" "files ?s = disk env"
    by (simp_all add: writeInv_def)
  from stateInv_run[of env "events @ later"] r show "startDocumentWrite ?s = NotIssued"
    by (simp add: stateInv_def)
next
  assume "hostNamePromise (run env events) = Pending"
  then show "hostNamePromise (run env (events @ [ServerFailed error])) = Rejected error"
    "extensionsServerAddress (run env (events @ [ServerFailed error])) = Rejected error"
    by (simp_all add: run_snoc addressRejected_def act_def)
qed

theorem server_failure_writes_nothing_witness:
  "filter isWriteFile (trace (run sampleEnv
      ([Ready, ServerFailed ''EADDRINUSE''] @ [ServerStarted ''127.0.0.1:45653'', WriteSucceeded]))) = []
   \<and> files (run sampleEnv
      ([Ready, ServerFailed ''EADDRINUSE''] @ [ServerStarted ''127.0.0.1:45653'', WriteSucceeded]))
     = disk sampleEnv
   \<and> hostNamePromise (run sampleEnv ([Ready] @ [ServerFailed ''EADDRINUSE'']))
     = Rejected ''EADDRINUSE''"
proof -
  have h1: "hostNamePromise (run sampleEnv [Ready, ServerFailed ''EADDRINUSE''])
     = Rejected ''EADDRINUSE''" by code_simp
  have h2: "hostNamePromise (run sampleEnv [Ready]) = Pending" by code_simp
  from server_failure_writes_nothing[of sampleEnv "[Ready, ServerFailed ''EADDRINUSE'']"
      "''EADDRINUSE''" "[ServerStarted ''127.0.0.1:45653'', WriteSucceeded]"] h1
    server_failure_writes_nothing[of sampleEnv "[Ready]" "''EADDRINUSE''"] h2
  show ?thesis by blast
qed

end
